theory Spec2Isabelle
  imports Main
begin

section \<open>Python values\<close>

text \<open>
  The raw configuration document is what a YAML loader produces: None, booleans,
  integers, strings, lists and dicts (insertion ordered, as association lists), and
  tuples for Python callers. Values are trees: two positions never share one object.
\<close>

datatype pyval =
    PNone
  | PBool bool
  | PInt int
  | PStr string
  | PList "pyval list"
  | PTuple "pyval list"
  | PDict "(pyval \<times> pyval) list"

datatype pytype = NoneType | T_bool | T_int | T_str | T_list | T_tuple | T_dict

fun type_of :: "pyval \<Rightarrow> pytype" where
  "type_of PNone = NoneType"
| "type_of (PBool b) = T_bool"
| "type_of (PInt i) = T_int"
| "type_of (PStr s) = T_str"
| "type_of (PList xs) = T_list"
| "type_of (PTuple xs) = T_tuple"
| "type_of (PDict kvs) = T_dict"

text \<open>\<^verbatim>\<open>isinstance(v, t)\<close>: \<^verbatim>\<open>bool\<close> is a subclass of \<^verbatim>\<open>int\<close>. The second argument
  of \<open>isinstance\<close> is a tuple of classes; a single class is the one-element list.\<close>

definition isinstance1 :: "pyval \<Rightarrow> pytype \<Rightarrow> bool" where
  "isinstance1 v t = (type_of v = t \<or> (type_of v = T_bool \<and> t = T_int))"

definition isinstance :: "pyval \<Rightarrow> pytype list \<Rightarrow> bool" where
  "isinstance v ts = list_ex (isinstance1 v) ts"

text \<open>\<^verbatim>\<open>len(v)\<close>; \<open>None\<close> where Python raises TypeError.\<close>

fun py_len :: "pyval \<Rightarrow> nat option" where
  "py_len (PStr s) = Some (length s)"
| "py_len (PList xs) = Some (length xs)"
| "py_len (PTuple xs) = Some (length xs)"
| "py_len (PDict kvs) = Some (length kvs)"
| "py_len _ = None"

text \<open>Truth value of an object, as \<^verbatim>\<open>if v:\<close> and \<^verbatim>\<open>not v\<close> test it.\<close>

fun truthy :: "pyval \<Rightarrow> bool" where
  "truthy PNone = False"
| "truthy (PBool b) = b"
| "truthy (PInt i) = (i \<noteq> 0)"
| "truthy (PStr s) = (s \<noteq> [])"
| "truthy (PList xs) = (xs \<noteq> [])"
| "truthy (PTuple xs) = (xs \<noteq> [])"
| "truthy (PDict kvs) = (kvs \<noteq> [])"



text \<open>\<^verbatim>\<open>s.startswith(p)\<close> and the substring test of \<^verbatim>\<open>t in s\<close> on strings.\<close>

fun startswith :: "string \<Rightarrow> string \<Rightarrow> bool" where
  "startswith s [] = True"
| "startswith [] (p # ps) = False"
| "startswith (c # s) (p # ps) = (c = p \<and> startswith s ps)"


section \<open>Exceptions and messages\<close>

text \<open>
  A message built by an f-string is kept as its fragments: the literal text and the
  formatted objects, each with the conversion the source applies (\<^verbatim>\<open>{v}\<close> is
  \<open>Str\<close>, \<^verbatim>\<open>{v!r}\<close> is \<open>Repr\<close>, \<^verbatim>\<open>{type(v)}\<close> is \<open>StrCls\<close>,
  \<^verbatim>\<open>{type(v).__name__}\<close> is \<open>NameCls\<close>).
\<close>

datatype frag =
    Lit string
  | Str pyval
  | Repr pyval
  | StrCls pytype
  | StrClss "pytype list"
  | NameCls pytype

type_synonym message = "frag list"

datatype exn =
    ValidationError message
  | ValueError message
  | TypeError
  | KeyError pyval
  | IndexError
  | RuntimeError
  | AttributeError


section \<open>OptionallyRequired\<close>

text \<open>
  Every option has a \<open>default\<close> (\<open>BaseConfigOption.__init__\<close> sets it to None).
  \<open>OptionallyRequired.__init__\<close> sets \<open>default\<close> and \<open>required = bool(required)\<close>. The
  subclass supplies \<open>run_validation\<close>; it threads whatever the instance mutates (its
  warning buffer, cached data) as a state \<open>'s\<close>, and returns the value or the exception
  raised next to that state.
\<close>

record base_config_option =
  default :: pyval

record optionally_required = base_config_option +
  required :: bool

type_synonym 's run_validation_method = "'s \<Rightarrow> pyval \<Rightarrow> (exn + pyval) \<times> 's"

definition validate ::
  "'s run_validation_method \<Rightarrow> 'a optionally_required_scheme \<Rightarrow> 's \<Rightarrow> pyval
     \<Rightarrow> (exn + pyval) \<times> 's" where
  "validate run_validation self st v =
     (if v = PNone then
        (if default self \<noteq> PNone then run_validation st (default self)
         else if \<not> required self then (Inr PNone, st)
         else (Inl (ValidationError [Lit ''Required configuration not provided.'']), st))
      else run_validation st v)"

text \<open>
  An observer for statements about which calls are made: the state is paired with the
  list of raw values \<open>run_validation\<close> has been called with so far.
\<close>

definition logged :: "'s run_validation_method \<Rightarrow> (pyval list \<times> 's) run_validation_method" where
  "logged run_validation ls v =
     (case run_validation (snd ls) v of (r, st') \<Rightarrow> (r, (fst ls @ [v], st')))"

definition calls_of :: "(exn + pyval) \<times> (pyval list \<times> 's) \<Rightarrow> pyval list" where
  "calls_of out = fst (snd out)"

section \<open>Type\<close>

record type_option = optionally_required +
  type' :: "pytype list"
  length' :: "int option"

definition Type_run_validation :: "'a type_option_scheme \<Rightarrow> pyval \<Rightarrow> exn + pyval" where
  "Type_run_validation self v =
     (if \<not> isinstance v (type' self) then
        Inl (ValidationError
          [Lit ''Expected type: '', StrClss (type' self), Lit '' but received: '',
           StrCls (type_of v)])
      else
        (case length' self of
           None \<Rightarrow> Inr v
         | Some n \<Rightarrow>
             (case py_len v of
                None \<Rightarrow> Inl TypeError
              | Some l \<Rightarrow>
                  if int l \<noteq> n then
                    Inl (ValidationError
                      [Lit ''Expected type: '', StrClss (type' self), Lit '' with length '',
                       Str (PInt n), Lit '' but received: '', Repr v, Lit '' with length '',
                       Str (PInt (int l))])
                  else Inr v)))"

text \<open>A method that touches no state of the instance.\<close>

definition stateless :: "(pyval \<Rightarrow> exn + pyval) \<Rightarrow> 's run_validation_method" where
  "stateless f st v = (f v, st)"

section \<open>Choice\<close>




section \<open>Config\<close>

text \<open>
  Modelled from the spec: \<open>Config\<close> (mkdocs/config/base.py is not among the sources)
  owns the raw document, a mutable mapping from string keys to arbitrary values that
  keeps insertion order, and an optional source-location identifier
  \<open>config_file_path\<close>. It is used as a dict: \<open>get\<close> answers None for a missing key,
  indexing a missing key raises KeyError, assignment replaces the value of a key in
  place or appends a new key, \<open>pop\<close> removes a key, iteration runs over the keys.
\<close>

record config =
  data :: "(string \<times> pyval) list"
  config_file_path :: "string option"

fun assoc_get :: "('k \<times> pyval) list \<Rightarrow> 'k \<Rightarrow> pyval option" where
  "assoc_get [] k = None"
| "assoc_get ((k', v) # kvs) k = (if k' = k then Some v else assoc_get kvs k)"

fun assoc_set :: "('k \<times> pyval) list \<Rightarrow> 'k \<Rightarrow> pyval \<Rightarrow> ('k \<times> pyval) list" where
  "assoc_set [] k v = [(k, v)]"
| "assoc_set ((k', v') # kvs) k v =
     (if k' = k then (k, v) # kvs else (k', v') # assoc_set kvs k v)"

fun assoc_del :: "('k \<times> pyval) list \<Rightarrow> 'k \<Rightarrow> ('k \<times> pyval) list" where
  "assoc_del [] k = []"
| "assoc_del ((k', v') # kvs) k = (if k' = k then kvs else (k', v') # assoc_del kvs k)"

text \<open>\<^verbatim>\<open>dict(zip(keys, values))\<close>: the pairs are inserted from left to right.\<close>

definition dict_of_zip :: "'k list \<Rightarrow> pyval list \<Rightarrow> ('k \<times> pyval) list" where
  "dict_of_zip ks vs = foldl (\<lambda>d kv. assoc_set d (fst kv) (snd kv)) [] (zip ks vs)"

definition config_get :: "config \<Rightarrow> string \<Rightarrow> pyval" where
  "config_get c k = (case assoc_get (data c) k of None \<Rightarrow> PNone | Some v \<Rightarrow> v)"

definition config_getitem :: "config \<Rightarrow> string \<Rightarrow> exn + pyval" where
  "config_getitem c k =
     (case assoc_get (data c) k of None \<Rightarrow> Inl (KeyError (PStr k)) | Some v \<Rightarrow> Inr v)"

definition config_setitem :: "config \<Rightarrow> string \<Rightarrow> pyval \<Rightarrow> config" where
  "config_setitem c k v = c\<lparr>data := assoc_set (data c) k v\<rparr>"

text \<open>
  \<^verbatim>\<open>for key_name in config: body\<close>. The keys are those of the dict when the loop starts,
  in insertion order. The iterator raises RuntimeError at the next step when the body
  has changed the size of the dict. (A body that keeps the size and replaces a key is
  left unspecified by Python; the model then goes on over the keys it started with.)
  The body returns the config it leaves, or the exception it raises.
\<close>

fun for_keys ::
  "('s \<Rightarrow> config \<Rightarrow> string \<Rightarrow> (exn + config) \<times> 's) \<Rightarrow> nat \<Rightarrow> string list \<Rightarrow> config \<Rightarrow> 's
     \<Rightarrow> (exn + config) \<times> 's" where
  "for_keys body n [] c st =
     (if length (data c) \<noteq> n then (Inl RuntimeError, st) else (Inr c, st))"
| "for_keys body n (k # ks) c st =
     (if length (data c) \<noteq> n then (Inl RuntimeError, st)
      else
        (case body st c k of
           (Inl e, st') \<Rightarrow> (Inl e, st')
         | (Inr c', st') \<Rightarrow> for_keys body n ks c' st'))"

definition for_config ::
  "('s \<Rightarrow> config \<Rightarrow> string \<Rightarrow> (exn + config) \<times> 's) \<Rightarrow> config \<Rightarrow> 's \<Rightarrow> (exn + config) \<times> 's" where
  "for_config body c st = for_keys body (length (data c)) (map fst (data c)) c st"

section \<open>The three operations of an option\<close>

text \<open>
  An option is used through \<open>pre_validation(config, key_name)\<close>,
  \<open>run_validation(value)\<close> and \<open>post_validation(config, key_name)\<close>. Each threads the
  state \<open>'s\<close> of the instance; the two hooks may also rewrite the config they are given.
\<close>

type_synonym 's hook = "'s \<Rightarrow> config \<Rightarrow> string \<Rightarrow> (exn + config) \<times> 's"

record 's option_methods =
  pre_validation :: "'s hook"
  run_validation :: "'s run_validation_method"
  post_validation :: "'s hook"

text \<open>
  Modelled from the spec: the hooks an option inherits from \<open>BaseConfigOption\<close>
  (mkdocs/config/base.py is not among the sources) when it defines none of its own, as
  \<open>Type\<close> and \<open>Choice\<close> do: they do nothing.
\<close>

definition BaseConfigOption_hook :: "'s hook" where
  "BaseConfigOption_hook st c key_name = (Inr c, st)"

definition inherits_hooks :: "'s run_validation_method \<Rightarrow> 's option_methods" where
  "inherits_hooks rv =
     \<lparr>pre_validation = BaseConfigOption_hook, run_validation = rv,
      post_validation = BaseConfigOption_hook\<rparr>"

section \<open>ListOfItems\<close>

text \<open>\<^verbatim>\<open>str(i)\<close> for an index \<open>i\<close> of \<^verbatim>\<open>range(len(value))\<close>.\<close>

definition digit :: "nat \<Rightarrow> char" where
  "digit d = ''0123456789'' ! d"

function str_nat :: "nat \<Rightarrow> string" where
  "str_nat n = (if n < 10 then [digit n] else str_nat (n div 10) @ [digit (n mod 10)])"
  by pat_completeness auto
termination
  by (relation "measure id") auto

declare str_nat.simps [simp del]

text \<open>
  The fields of a \<open>ListOfItems\<close>: \<open>default\<close>; the class attribute \<open>required\<close> (None
  unless a subclass sets it); the option that validates one item; and \<open>_config\<close> and
  \<open>_key_name\<close>, which exist only once \<open>pre_validation\<close> has run.
\<close>

record 's list_of_items = base_config_option +
  required' :: "bool option"
  option_type :: "'s option_methods"
  config' :: "config option"
  key_name' :: "string option"

definition ListOfItems_pre_validation ::
  "('s, 'a) list_of_items_scheme \<Rightarrow> config \<Rightarrow> string \<Rightarrow> ('s, 'a) list_of_items_scheme" where
  "ListOfItems_pre_validation self c key_name = self\<lparr>config' := Some c, key_name' := Some key_name\<rparr>"

definition fake_keys :: "string \<Rightarrow> nat \<Rightarrow> string list" where
  "fake_keys parent_key_name n = map (\<lambda>i. parent_key_name @ ''['' @ str_nat i @ '']'') [0..<n]"

text \<open>\<^verbatim>\<open>fake_config[key_name] = self.option_type.run_validation(fake_config[key_name])\<close>\<close>

definition run_item :: "'s run_validation_method \<Rightarrow> 's hook" where
  "run_item rv st c key_name =
     (case config_getitem c key_name of
        Inl e \<Rightarrow> (Inl e, st)
      | Inr v \<Rightarrow>
          (case rv st v of
             (Inl e, st') \<Rightarrow> (Inl e, st')
           | (Inr v', st') \<Rightarrow> (Inr (config_setitem c key_name v'), st')))"

text \<open>\<^verbatim>\<open>[fake_config[k] for k in fake_keys]\<close>\<close>

fun getitems :: "config \<Rightarrow> string list \<Rightarrow> exn + pyval list" where
  "getitems c [] = Inr []"
| "getitems c (k # ks) =
     (case config_getitem c k of
        Inl e \<Rightarrow> Inl e
      | Inr v \<Rightarrow> (case getitems c ks of Inl e \<Rightarrow> Inl e | Inr vs \<Rightarrow> Inr (v # vs)))"

definition ListOfItems_run_validation ::
  "('s, 'a) list_of_items_scheme \<Rightarrow> 's run_validation_method" where
  "ListOfItems_run_validation self st v0 =
     (if v0 = PNone \<and> (required' self = Some True \<or> default self = PNone) then
        (Inl (ValidationError [Lit ''Required configuration not provided.'']), st)
      else
        (let v = (if v0 = PNone then default self else v0) in
         case v of
           PList items \<Rightarrow>
             if items = [] then (Inr v, st)
             else
               (let fake_config =
                      \<lparr>data = [],
                       config_file_path =
                         (case config' self of None \<Rightarrow> None | Some c \<Rightarrow> config_file_path c)\<rparr>;
                    parent_key_name = (case key_name' self of None \<Rightarrow> [] | Some k \<Rightarrow> k);
                    keys = fake_keys parent_key_name (length items);
                    fake_config = fake_config\<lparr>data := dict_of_zip keys items\<rparr>
                in
                  case for_config (pre_validation (option_type self)) fake_config st of
                    (Inl e, st1) \<Rightarrow> (Inl e, st1)
                  | (Inr c1, st1) \<Rightarrow>
                      (case for_config (run_item (run_validation (option_type self))) c1 st1 of
                         (Inl e, st2) \<Rightarrow> (Inl e, st2)
                       | (Inr c2, st2) \<Rightarrow>
                           (case for_config (post_validation (option_type self)) c2 st2 of
                              (Inl e, st3) \<Rightarrow> (Inl e, st3)
                            | (Inr c3, st3) \<Rightarrow>
                                (case getitems c3 keys of
                                   Inl e \<Rightarrow> (Inl e, st3)
                                 | Inr vs \<Rightarrow> (Inr (PList vs), st3)))))
         | _ \<Rightarrow>
             (Inl (ValidationError
                [Lit ''Expected a list of items, but a '', StrCls (type_of v),
                 Lit '' was given.'']), st)))"

text \<open>
  For the statements about the list lifecycle: \<open>run_validation\<close> applied to the items
  from left to right, stopping at the first exception. This is not a function of the
  source; \<open>ListOfItems_run_validation\<close> is compared with it.
\<close>

fun validate_in_turn ::
  "'s run_validation_method \<Rightarrow> 's \<Rightarrow> pyval list \<Rightarrow> (exn + pyval list) \<times> 's" where
  "validate_in_turn rv st [] = (Inr [], st)"
| "validate_in_turn rv st (x # xs) =
     (case rv st x of
        (Inl e, st') \<Rightarrow> (Inl e, st')
      | (Inr y, st') \<Rightarrow>
          (case validate_in_turn rv st' xs of
             (Inl e, st'') \<Rightarrow> (Inl e, st'')
           | (Inr ys, st'') \<Rightarrow> (Inr (y # ys), st'')))"

section \<open>Nav\<close>

text \<open>\<open>Nav._repr_item\<close>, as the fragments of the string it returns.\<close>

definition repr_item :: "pyval \<Rightarrow> message" where
  "repr_item v =
     (case v of
        PDict kvs \<Rightarrow>
          if kvs \<noteq> [] then [Lit ''dict with keys '', Str (PTuple (map fst kvs))]
          else [Lit ''a '', NameCls (type_of v), Lit '': '', Repr v]
      | PStr s \<Rightarrow> [Repr v]
      | PNone \<Rightarrow> [Repr v]
      | _ \<Rightarrow> [Lit ''a '', NameCls (type_of v), Lit '': '', Repr v])"

text \<open>
  \<open>Nav.run_validation(value, top)\<close> and \<open>Nav._validate_nav_item(value)\<close> call each
  other; the state is the warning buffer of the option. The two loops,
  \<^verbatim>\<open>for subitem in value: self._validate_nav_item(subitem)\<close> and
  \<^verbatim>\<open>for subnav in value.values(): self.run_validation(subnav, top=False)\<close>, are
  \<open>validate_nav_items\<close> and \<open>run_validation_values\<close>.
\<close>

fun Nav_run_validation :: "bool \<Rightarrow> message list \<Rightarrow> pyval \<Rightarrow> (exn + pyval) \<times> message list"
  and validate_nav_item :: "message list \<Rightarrow> pyval \<Rightarrow> (exn + unit) \<times> message list"
  and validate_nav_items :: "message list \<Rightarrow> pyval list \<Rightarrow> (exn + unit) \<times> message list"
  and run_validation_values ::
    "message list \<Rightarrow> (pyval \<times> pyval) list \<Rightarrow> (exn + unit) \<times> message list"
where
  "Nav_run_validation top' ws (PList xs) =
     (case validate_nav_items ws xs of
        (Inl e, ws') \<Rightarrow> (Inl e, ws')
      | (Inr u, ws') \<Rightarrow> (Inr (if top' \<and> xs = [] then PNone else PList xs), ws'))"
| "Nav_run_validation top' ws (PDict kvs) =
     (if kvs \<noteq> [] \<and> \<not> top' then
        (case run_validation_values
                (ws @ [Lit ''Expected nav to be a list, got '' # repr_item (PDict kvs)]) kvs of
           (Inl e, ws') \<Rightarrow> (Inl e, ws')
         | (Inr u, ws') \<Rightarrow> (Inr (PDict kvs), ws'))
      else
        (Inl (ValidationError (Lit ''Expected nav to be a list, got '' # repr_item (PDict kvs))),
         ws))"
| "Nav_run_validation top' ws (PStr s) =
     (if \<not> top' then (Inr (PStr s), ws)
      else
        (Inl (ValidationError (Lit ''Expected nav to be a list, got '' # repr_item (PStr s))),
         ws))"
| "Nav_run_validation top' ws v =
     (Inl (ValidationError (Lit ''Expected nav to be a list, got '' # repr_item v)), ws)"
| "validate_nav_item ws (PStr s) = (Inr (), ws)"
| "validate_nav_item ws (PDict kvs) =
     (if length kvs \<noteq> 1 then
        (Inl (ValidationError
           (Lit ''Expected nav item to be a dict of size 1, got '' # repr_item (PDict kvs))), ws)
      else run_validation_values ws kvs)"
| "validate_nav_item ws v =
     (Inl (ValidationError
        (Lit ''Expected nav item to be a string or dict, got '' # repr_item v)), ws)"
| "validate_nav_items ws [] = (Inr (), ws)"
| "validate_nav_items ws (x # xs) =
     (case validate_nav_item ws x of
        (Inl e, ws') \<Rightarrow> (Inl e, ws')
      | (Inr u, ws') \<Rightarrow> validate_nav_items ws' xs)"
| "run_validation_values ws [] = (Inr (), ws)"
| "run_validation_values ws (kv # kvs) =
     (case Nav_run_validation False ws (snd kv) of
        (Inl e, ws') \<Rightarrow> (Inl e, ws')
      | (Inr v, ws') \<Rightarrow> run_validation_values ws' kvs)"

section \<open>Paths\<close>

text \<open>
  The functions of \<open>os.path\<close> the options call, for POSIX (\<open>os.sep\<close> is \<^verbatim>\<open>/\<close>), as
  \<open>posixpath\<close> defines them on strings. \<open>abspath\<close> reads the working directory of the
  process, which is a parameter here.
\<close>

definition sep :: char where
  "sep = CHR ''/''"

text \<open>\<^verbatim>\<open>s.rstrip('/')\<close>, \<^verbatim>\<open>s.split('/')\<close> and \<^verbatim>\<open>'/'.join(comps)\<close>.\<close>

definition rstrip_sep :: "string \<Rightarrow> string" where
  "rstrip_sep s = rev (dropWhile (\<lambda>c. c = sep) (rev s))"

fun split_sep :: "string \<Rightarrow> string list" where
  "split_sep [] = [[]]"
| "split_sep (c # cs) =
     (if c = sep then [] # split_sep cs
      else (case split_sep cs of [] \<Rightarrow> [[c]] | x # xs \<Rightarrow> (c # x) # xs))"

fun join_sep :: "string list \<Rightarrow> string" where
  "join_sep [] = []"
| "join_sep [x] = x"
| "join_sep (x # y # ys) = x @ [sep] @ join_sep (y # ys)"

definition isabs :: "string \<Rightarrow> bool" where
  "isabs s = startswith s [sep]"

text \<open>\<open>posixpath.dirname\<close>: the head up to the last separator, without trailing
  separators unless it consists of separators only.\<close>

definition dirname :: "string \<Rightarrow> string" where
  "dirname p =
     (let head = rev (dropWhile (\<lambda>c. c \<noteq> sep) (rev p)) in
      if head \<noteq> [] \<and> head \<noteq> replicate (length head) sep then rstrip_sep head else head)"

text \<open>\<open>posixpath.join\<close> of two paths.\<close>

definition join :: "string \<Rightarrow> string \<Rightarrow> string" where
  "join a b =
     (if startswith b [sep] then b
      else if a = [] \<or> last a = sep then a @ b
      else a @ [sep] @ b)"

text \<open>\<open>posixpath.normpath\<close>: the loop over the components keeps \<open>new_comps\<close>.\<close>

definition initial_slashes :: "string \<Rightarrow> nat" where
  "initial_slashes path =
     (if startswith path [sep] then
        (if startswith path [sep, sep] \<and> \<not> startswith path [sep, sep, sep] then 2 else 1)
      else 0)"

definition normpath_step :: "nat \<Rightarrow> string list \<Rightarrow> string \<Rightarrow> string list" where
  "normpath_step slashes new_comps comp' =
     (if comp' = [] \<or> comp' = ''.'' then new_comps
      else if comp' \<noteq> ''..'' \<or> (slashes = 0 \<and> new_comps = [])
              \<or> (new_comps \<noteq> [] \<and> last new_comps = ''..'')
      then new_comps @ [comp']
      else if new_comps \<noteq> [] then butlast new_comps
      else new_comps)"

definition normpath :: "string \<Rightarrow> string" where
  "normpath path =
     (if path = [] then ''.''
      else
        (let slashes = initial_slashes path;
             comps = foldl (normpath_step slashes) [] (split_sep path);
             path' = replicate slashes sep @ join_sep comps
         in if path' = [] then ''.'' else path'))"

definition abspath :: "string \<Rightarrow> string \<Rightarrow> string" where
  "abspath cwd path = normpath (if \<not> isabs path then join cwd path else path)"

section \<open>FilesystemObject and SiteDir\<close>

text \<open>
  A \<open>FilesystemObject\<close> is a \<open>Type\<close> with \<open>type_=str\<close>; \<open>existence_test\<close> and \<open>name\<close>
  are the class attributes that \<open>Dir\<close> and \<open>File\<close> override (\<open>os.path.exists\<close>,
  \<open>isdir\<close>, \<open>isfile\<close>: the file system is outside the program, so the test is any
  predicate on paths). \<open>config_dir\<close> is None until \<open>pre_validation\<close> sets it.
\<close>

record filesystem_object = type_option +
  exists' :: bool
  config_dir :: "string option"
  existence_test :: "string \<Rightarrow> bool"
  name' :: string

definition FilesystemObject_init ::
  "(string \<Rightarrow> bool) \<Rightarrow> string \<Rightarrow> bool \<Rightarrow> pyval \<Rightarrow> bool \<Rightarrow> int option \<Rightarrow> filesystem_object" where
  "FilesystemObject_init test nm ex dflt req len =
     \<lparr>default = dflt, required = req, type' = [T_str], length' = len,
      exists' = ex, config_dir = None, existence_test = test, name' = nm\<rparr>"

definition FilesystemObject_pre_validation ::
  "'a filesystem_object_scheme \<Rightarrow> config \<Rightarrow> string \<Rightarrow> 'a filesystem_object_scheme" where
  "FilesystemObject_pre_validation self c key_name =
     self\<lparr>config_dir :=
       (case config_file_path c of
          None \<Rightarrow> None
        | Some p \<Rightarrow> if p \<noteq> [] then Some (dirname p) else None)\<rparr>"

text \<open>The working directory \<open>cwd\<close> is what \<open>os.getcwd()\<close> answers inside \<open>abspath\<close>.
  After the check of \<open>Type\<close> with \<open>type_=str\<close> the value is a string; the functions of
  \<open>os.path\<close> raise TypeError on anything else.\<close>

definition squote :: string where
  "squote = [CHR 0x27]"

definition FilesystemObject_run_validation ::
  "string \<Rightarrow> 'a filesystem_object_scheme \<Rightarrow> pyval \<Rightarrow> exn + pyval" where
  "FilesystemObject_run_validation cwd self v0 =
     (case Type_run_validation self v0 of
        Inl e \<Rightarrow> Inl e
      | Inr (PStr s) \<Rightarrow>
          (let v = (case config_dir self of
                      None \<Rightarrow> s
                    | Some d \<Rightarrow> if d \<noteq> [] \<and> \<not> isabs s then join d s else s)
           in if exists' self \<and> \<not> existence_test self v then
                Inl (ValidationError
                  [Lit (''The path '' @ squote), Str (PStr v),
                   Lit (squote @ '' isn't an existing ''), Lit (name' self), Lit ''.''])
              else Inr (PStr (abspath cwd v)))
      | Inr _ \<Rightarrow> Inl TypeError)"

text \<open>
  \<open>SiteDir.post_validation\<close>. The hook of the superclasses does nothing (see
  \<open>BaseConfigOption_hook\<close>). \<open>docs_dir + os.sep\<close> raises TypeError when \<open>docs_dir\<close> is
  not a string, \<open>site_dir.rstrip\<close> raises AttributeError when \<open>site_dir\<close> is not one.
\<close>

definition within :: "string \<Rightarrow> string \<Rightarrow> bool" where
  "within inner outer = startswith (inner @ [sep]) (rstrip_sep outer @ [sep])"

definition both_dirs :: "string \<Rightarrow> string \<Rightarrow> message" where
  "both_dirs site_dir docs_dir =
     [Lit (''(site_dir: '' @ squote), Str (PStr site_dir),
      Lit (squote @ '', docs_dir: '' @ squote), Str (PStr docs_dir), Lit (squote @ '')'')]"

definition docs_in_site_message :: "string \<Rightarrow> string \<Rightarrow> message" where
  "docs_in_site_message site_dir docs_dir =
     [Lit ''The 'docs_dir' should not be within the 'site_dir' as this '',
      Lit ''can mean the source files are overwritten by the output or '',
      Lit ''it will be deleted if --clean is passed to mkdocs build. '']
     @ both_dirs site_dir docs_dir"

definition site_in_docs_message :: "string \<Rightarrow> string \<Rightarrow> message" where
  "site_in_docs_message site_dir docs_dir =
     [Lit ''The 'site_dir' should not be within the 'docs_dir' as this '',
      Lit ''leads to the build directory being copied into itself and '',
      Lit ''duplicate nested files in the 'site_dir'. '']
     @ both_dirs site_dir docs_dir"

definition SiteDir_post_validation :: "'s hook" where
  "SiteDir_post_validation st c key_name =
     (case config_getitem c ''docs_dir'' of
        Inl e \<Rightarrow> (Inl e, st)
      | Inr docs \<Rightarrow>
          (case config_getitem c ''site_dir'' of
             Inl e \<Rightarrow> (Inl e, st)
           | Inr site \<Rightarrow>
               (case docs of
                  PStr docs_dir \<Rightarrow>
                    (case site of
                       PStr site_dir \<Rightarrow>
                         if within docs_dir site_dir then
                           (Inl (ValidationError (docs_in_site_message site_dir docs_dir)), st)
                         else if within site_dir docs_dir then
                           (Inl (ValidationError (site_in_docs_message site_dir docs_dir)), st)
                         else (Inr c, st)
                     | _ \<Rightarrow> (Inl AttributeError, st))
                | _ \<Rightarrow> (Inl TypeError, st))))"

section \<open>Notions for the statements about the list lifecycle\<close>

text \<open>
  None of these is a function of the source. \<open>fake_keys_of\<close> and \<open>fake_config_of\<close> name
  the placeholder keys and the synthetic config that \<open>ListOfItems_run_validation\<close>
  builds for the items \<open>xs\<close>. A hook \<open>leaves_config\<close> when it never raises and hands
  back the config it was given (it may still change the state of its option);
  \<open>hook_states\<close> is the state of the option after such a hook has run for the keys in
  turn. \<open>observed\<close> turns the operations of an option into operations that also record
  the values \<open>run_validation\<close> is called with, as \<open>logged\<close> does for one method.
\<close>

definition fake_keys_of :: "('s, 'a) list_of_items_scheme \<Rightarrow> nat \<Rightarrow> string list" where
  "fake_keys_of self n = fake_keys (case key_name' self of None \<Rightarrow> [] | Some k \<Rightarrow> k) n"

definition fake_config_of :: "('s, 'a) list_of_items_scheme \<Rightarrow> pyval list \<Rightarrow> config" where
  "fake_config_of self xs =
     \<lparr>data = zip (fake_keys_of self (length xs)) xs,
      config_file_path = (case config' self of None \<Rightarrow> None | Some c \<Rightarrow> config_file_path c)\<rparr>"

definition leaves_config :: "'s hook \<Rightarrow> bool" where
  "leaves_config h = (\<forall>st c k. fst (h st c k) = Inr c)"

definition hook_states :: "'s hook \<Rightarrow> config \<Rightarrow> string list \<Rightarrow> 's \<Rightarrow> 's" where
  "hook_states h c ks st = foldl (\<lambda>s k. snd (h s c k)) st ks"



text \<open>
  The three operations of a \<open>FilesystemObject\<close> as an item option: the state is the
  instance, whose \<open>config_dir\<close> the \<open>pre_validation\<close> sets; \<open>post_validation\<close> is
  inherited.
\<close>

definition FilesystemObject_methods :: "string \<Rightarrow> filesystem_object option_methods" where
  "FilesystemObject_methods cwd =
     \<lparr>pre_validation = (\<lambda>self c key_name. (Inr c, FilesystemObject_pre_validation self c key_name)),
      run_validation = (\<lambda>self v. (FilesystemObject_run_validation cwd self v, self)),
      post_validation = BaseConfigOption_hook\<rparr>"

text \<open>For the statements about \<open>normpath\<close>: a component that \<open>normpath\<close> keeps in an
  absolute path.\<close>

definition clean :: "string \<Rightarrow> bool" where
  "clean c = (c \<noteq> [] \<and> c \<noteq> ''.'' \<and> c \<noteq> ''..'' \<and> sep \<notin> set c)"

section \<open>Concrete options and documents\<close>

text \<open>\<^verbatim>\<open>Type(int, default='abc')\<close>, \<^verbatim>\<open>Type(int, required=True)\<close> and \<^verbatim>\<open>Type(int)\<close>.\<close>

definition Type_int_abc :: type_option where
  "Type_int_abc =
     \<lparr>default = PStr ''abc'', required = False, type' = [T_int], length' = None\<rparr>"

definition Type_int_required :: type_option where
  "Type_int_required =
     \<lparr>default = PNone, required = True, type' = [T_int], length' = None\<rparr>"

definition Type_int :: type_option where
  "Type_int = \<lparr>default = PNone, required = False, type' = [T_int], length' = None\<rparr>"



text \<open>\<^verbatim>\<open>ListOfItems(Type(int))\<close>, before any \<open>pre_validation\<close>; the state of the item
  option is the list of the values its \<open>run_validation\<close> has been called with.\<close>

definition ListOfItems_Type_int :: "(pyval list \<times> unit) list_of_items" where
  "ListOfItems_Type_int =
     \<lparr>default = PNone, required' = None,
      option_type = inherits_hooks (logged (stateless (Type_run_validation Type_int))),
      config' = None, key_name' = None\<rparr>"

text \<open>\<^verbatim>\<open>ListOfItems(Type(int), default=[])\<close>.\<close>

definition ListOfItems_Type_int_default :: "(pyval list \<times> unit) list_of_items" where
  "ListOfItems_Type_int_default = ListOfItems_Type_int\<lparr>default := PList []\<rparr>"

text \<open>\<^verbatim>\<open>Nav()\<close>, and the navigation \<^verbatim>\<open>['index.md', {'About': 'about.md'}]\<close>.\<close>

definition Nav :: optionally_required where
  "Nav = \<lparr>default = PNone, required = False\<rparr>"

definition nav_two :: "pyval list" where
  "nav_two = [PStr ''index.md'', PDict [(PStr ''About'', PStr ''about.md'')]]"

text \<open>The documents \<^verbatim>\<open>{docs_dir: /x, site_dir: /x/y}\<close> and \<^verbatim>\<open>{docs_dir: /x/y, site_dir: /x}\<close>.\<close>

definition site_in_docs :: config where
  "site_in_docs =
     \<lparr>data = [(''docs_dir'', PStr ''/x''), (''site_dir'', PStr ''/x/y'')],
      config_file_path = None\<rparr>"

definition docs_in_site :: config where
  "docs_in_site =
     \<lparr>data = [(''docs_dir'', PStr ''/x/y''), (''site_dir'', PStr ''/x'')],
      config_file_path = None\<rparr>"

text \<open>
  \<^verbatim>\<open>ListOfItems(FilesystemObject())\<close> under the key \<open>watch\<close> of a config loaded from
  \<^verbatim>\<open>/w/mkdocs.yml\<close>, after its \<open>pre_validation\<close>; the state of the item option is the
  \<open>FilesystemObject\<close> instance. The process runs in \<^verbatim>\<open>/cwd\<close>.
\<close>

definition plain_path :: filesystem_object where
  "plain_path = FilesystemObject_init (\<lambda>p. True) ''file or directory'' False PNone False None"

definition ListOfItems_paths :: "filesystem_object list_of_items" where
  "ListOfItems_paths =
     \<lparr>default = PNone, required' = None, option_type = FilesystemObject_methods ''/cwd'',
      config' = Some \<lparr>data = [], config_file_path = Some ''/w/mkdocs.yml''\<rparr>,
      key_name' = Some ''watch''\<rparr>"


text \<open>
  A file system in which \<^verbatim>\<open>/a/b/link\<close> is a symbolic link to a directory elsewhere:
  \<^verbatim>\<open>/a/b/link/../x\<close> exists, \<^verbatim>\<open>/a/b/x\<close> does not. \<open>through_link\<close> is
  \<^verbatim>\<open>FilesystemObject(exists=True)\<close> on it and \<open>plain\<close> is \<^verbatim>\<open>FilesystemObject()\<close>, both
  after \<open>pre_validation\<close> on a config loaded from \<^verbatim>\<open>/a/b/mkdocs.yml\<close>.
\<close>

definition only_through_link :: "string \<Rightarrow> bool" where
  "only_through_link p = (p = ''/a/b/link/../x'')"

definition a_b_mkdocs :: config where
  "a_b_mkdocs = \<lparr>data = [], config_file_path = Some ''/a/b/mkdocs.yml''\<rparr>"

definition through_link :: filesystem_object where
  "through_link =
     FilesystemObject_pre_validation
       (FilesystemObject_init only_through_link ''file or directory'' True PNone False None)
       a_b_mkdocs ''docs_dir''"

definition plain :: filesystem_object where
  "plain = FilesystemObject_pre_validation plain_path a_b_mkdocs ''docs_dir''"


section \<open>OptionallyRequired.validate on an absent value\<close>

text \<open>
  C1, as the claim states it, fails: with a default, \<open>validate\<close> does not return the
  default past the coercion logic. For \<^verbatim>\<open>Type(int, default='abc')\<close> and the raw value
  None, \<open>run_validation\<close> is called with \<^verbatim>\<open>'abc'\<close> and its ValidationError is the
  outcome, not the default.
\<close>

theorem validate_default_counterexample:
  "fst (validate (logged (stateless (Type_run_validation Type_int_abc))) Type_int_abc ([], ()) PNone)
     \<noteq> Inr (PStr ''abc'')
   \<and> calls_of
        (validate (logged (stateless (Type_run_validation Type_int_abc))) Type_int_abc ([], ()) PNone)
     = [PStr ''abc'']"
  by (simp add: validate_def logged_def stateless_def Type_run_validation_def Type_int_abc_def
      calls_of_def isinstance_def isinstance1_def)

text \<open>
  C1, amended: on the raw value None, a default that is not None is substituted and
  \<open>run_validation\<close> is called on it exactly once, its outcome (value or exception) being
  the outcome of \<open>validate\<close>; with no default, a required option raises ValidationError
  "Required configuration not provided." and an option that is not required returns None,
  in both cases without any call of \<open>run_validation\<close>. The second component of the result
  is the list of values \<open>run_validation\<close> was called with, and the state it left.
\<close>

theorem validate_absent:
  "(default self \<noteq> PNone \<longrightarrow>
      validate (logged rv) self ([], st) PNone =
        (fst (rv st (default self)), ([default self], snd (rv st (default self)))))
   \<and> (default self = PNone \<and> required self \<longrightarrow>
      validate (logged rv) self ([], st) PNone =
        (Inl (ValidationError [Lit ''Required configuration not provided.'']), ([], st)))
   \<and> (default self = PNone \<and> \<not> required self \<longrightarrow>
      validate (logged rv) self ([], st) PNone = (Inr PNone, ([], st)))"
  by (simp add: validate_def logged_def split: prod.splits)

theorem validate_absent_witness:
  "validate (logged (stateless (Type_run_validation Type_int_abc))) Type_int_abc ([], ()) PNone =
     (Inl (ValidationError
        [Lit ''Expected type: '', StrClss [T_int], Lit '' but received: '', StrCls T_str]),
      ([PStr ''abc''], ()))
   \<and> validate (logged (stateless (Type_run_validation Type_int_required))) Type_int_required
        ([], ()) PNone =
     (Inl (ValidationError [Lit ''Required configuration not provided.'']), ([], ()))
   \<and> validate (logged (stateless (Type_run_validation Type_int))) Type_int ([], ()) PNone =
     (Inr PNone, ([], ()))"
  using validate_absent [of Type_int_abc "stateless (Type_run_validation Type_int_abc)" "()"]
    validate_absent [of Type_int_required "stateless (Type_run_validation Type_int_required)" "()"]
    validate_absent [of Type_int "stateless (Type_run_validation Type_int)" "()"]
  by (simp add: Type_int_abc_def Type_int_required_def Type_int_def stateless_def
      Type_run_validation_def isinstance_def isinstance1_def)

section \<open>The list lifecycle as a loop over the items\<close>

text \<open>The placeholder keys \<open>key[0]\<close>, \<open>key[1]\<close>, ... are pairwise distinct.\<close>

lemma digit_inj: "a < 10 \<Longrightarrow> b < 10 \<Longrightarrow> digit a = digit b \<Longrightarrow> a = b"
proof -
  assume a: "a < 10" and b: "b < 10" and e: "digit a = digit b"
  have d: "distinct ''0123456789''" by simp
  have l: "length ''0123456789'' = 10" by simp
  show "a = b" using a b e nth_eq_iff_index_eq [OF d, of a b] unfolding digit_def l by blast
qed

lemma str_nat_nonempty: "str_nat n \<noteq> []"
  by (subst str_nat.simps) simp

lemma str_nat_inj: "str_nat n = str_nat m \<Longrightarrow> n = m"
proof (induction n arbitrary: m rule: str_nat.induct)
  case (1 n)
  show ?case
  proof (cases "n < 10")
    case True
    then have n: "str_nat n = [digit n]" by (subst str_nat.simps) simp
    show ?thesis
    proof (cases "m < 10")
      case True
      then have "str_nat m = [digit m]" by (subst str_nat.simps) simp
      with n "1.prems" \<open>n < 10\<close> True show ?thesis by (auto dest: digit_inj)
    next
      case False
      then have "str_nat m = str_nat (m div 10) @ [digit (m mod 10)]" by (subst str_nat.simps) simp
      with n "1.prems" str_nat_nonempty [of "m div 10"] show ?thesis by simp
    qed
  next
    case False
    then have n: "str_nat n = str_nat (n div 10) @ [digit (n mod 10)]" by (subst str_nat.simps) simp
    show ?thesis
    proof (cases "m < 10")
      case True
      then have "str_nat m = [digit m]" by (subst str_nat.simps) simp
      with n "1.prems" str_nat_nonempty [of "n div 10"] show ?thesis by simp
    next
      case m: False
      then have "str_nat m = str_nat (m div 10) @ [digit (m mod 10)]" by (subst str_nat.simps) simp
      with n "1.prems" have e: "str_nat (n div 10) = str_nat (m div 10)" "digit (n mod 10) = digit (m mod 10)"
        by simp_all
      from "1.IH" [OF False e(1)] have d: "n div 10 = m div 10" .
      from digit_inj [OF _ _ e(2)] have r: "n mod 10 = m mod 10" by simp
      from d r show ?thesis by (metis div_mult_mod_eq)
    qed
  qed
qed

lemma distinct_fake_keys: "distinct (fake_keys p n)"
  unfolding fake_keys_def by (auto simp: distinct_map inj_on_def dest: str_nat_inj)

lemma length_fake_keys: "length (fake_keys p n) = length [0..<n]"
  by (simp add: fake_keys_def)

text \<open>
  With the hooks inherited from \<open>BaseConfigOption\<close>, the three passes over the
  synthetic config amount to validating the items in turn.
\<close>

lemma assoc_set_fresh: "k \<notin> fst ` set d \<Longrightarrow> assoc_set d k v = d @ [(k, v)]"
  by (induction d) auto

lemma dict_of_zip_aux:
  "distinct (map fst d @ ks) \<Longrightarrow> length ks = length vs \<Longrightarrow>
   foldl (\<lambda>d kv. assoc_set d (fst kv) (snd kv)) d (zip ks vs) = d @ zip ks vs"
proof (induction ks arbitrary: d vs)
  case Nil
  then show ?case by simp
next
  case (Cons k ks)
  then obtain v vs' where vs: "vs = v # vs'" by (cases vs) auto
  from Cons.prems have f: "k \<notin> fst ` set d" by auto
  have "distinct (map fst (d @ [(k, v)]) @ ks)" using Cons.prems by auto
  from Cons.IH [OF this, of vs'] Cons.prems vs f show ?case
    by (simp add: assoc_set_fresh)
qed

lemma dict_of_zip_distinct:
  "distinct ks \<Longrightarrow> length ks = length vs \<Longrightarrow> dict_of_zip ks vs = zip ks vs"
  using dict_of_zip_aux [of "[]" ks vs] by (simp add: dict_of_zip_def)

lemma for_keys_inherited:
  "length (data c) = n \<Longrightarrow> for_keys BaseConfigOption_hook n ks c st = (Inr c, st)"
  by (induction ks) (auto simp: BaseConfigOption_hook_def)

lemma for_config_inherited: "for_config BaseConfigOption_hook c st = (Inr c, st)"
  by (simp add: for_config_def for_keys_inherited)

lemma assoc_get_mid:
  "k \<notin> fst ` set pre \<Longrightarrow> assoc_get (pre @ (k, x) # post) k = Some x"
  by (induction pre) auto

lemma assoc_set_mid:
  "k \<notin> fst ` set pre \<Longrightarrow> assoc_set (pre @ (k, x) # post) k y = pre @ (k, y) # post"
  by (induction pre) auto

lemma for_keys_run_item:
  "distinct (map fst pre @ ks) \<Longrightarrow> length ks = length xs \<Longrightarrow>
   data c = pre @ zip ks xs \<Longrightarrow> n = length (data c) \<Longrightarrow>
   for_keys (run_item rv) n ks c st =
     (case validate_in_turn rv st xs of
        (Inl e, st') \<Rightarrow> (Inl e, st')
      | (Inr ys, st') \<Rightarrow> (Inr (c\<lparr>data := pre @ zip ks ys\<rparr>), st'))"
proof (induction ks arbitrary: pre xs c st)
  case Nil
  then show ?case by simp
next
  case (Cons k ks)
  then obtain x xs' where xs: "xs = x # xs'" by (cases xs) auto
  from Cons.prems have fresh: "k \<notin> fst ` set pre" by auto
  have d: "data c = pre @ (k, x) # zip ks xs'" using Cons.prems xs by simp
  have get: "config_getitem c k = Inr x"
    by (simp add: config_getitem_def d assoc_get_mid [OF fresh])
  show ?case
  proof (cases "rv st x")
    case (Pair r st')
    show ?thesis
    proof (cases r)
      case (Inl e)
      with Pair get xs Cons.prems show ?thesis by (simp add: run_item_def)
    next
      case (Inr y)
      let ?c = "config_setitem c k y"
      have d': "data ?c = (pre @ [(k, y)]) @ zip ks xs'"
        by (simp add: config_setitem_def d assoc_set_mid [OF fresh])
      have dist: "distinct (map fst (pre @ [(k, y)]) @ ks)" using Cons.prems by auto
      have len: "length ks = length xs'" using Cons.prems xs by simp
      have n: "n = length (data ?c)" using Cons.prems(4) d d' by simp
      have step: "for_keys (run_item rv) n (k # ks) c st = for_keys (run_item rv) n ks ?c st'"
        using Pair Inr get Cons.prems by (simp add: run_item_def)
      show ?thesis
        unfolding step Cons.IH [OF dist len d' n] xs
        using Pair Inr
        by (auto simp: config_setitem_def split: prod.splits sum.splits)
    qed
  qed
qed

lemma getitems_zip:
  "distinct (map fst pre @ ks) \<Longrightarrow> length ks = length ys \<Longrightarrow> data c = pre @ zip ks ys \<Longrightarrow>
   getitems c ks = Inr ys"
proof (induction ks arbitrary: pre ys)
  case Nil
  then show ?case by simp
next
  case (Cons k ks)
  then obtain y ys' where ys: "ys = y # ys'" by (cases ys) auto
  from Cons.prems have fresh: "k \<notin> fst ` set pre" by auto
  have d: "data c = (pre @ [(k, y)]) @ zip ks ys'" using Cons.prems ys by simp
  have get: "config_getitem c k = Inr y"
    using Cons.prems ys by (simp add: config_getitem_def assoc_get_mid [OF fresh])
  have dist: "distinct (map fst (pre @ [(k, y)]) @ ks)" using Cons.prems by auto
  have len: "length ks = length ys'" using Cons.prems ys by simp
  from Cons.IH [OF dist len d] get ys show ?case by simp
qed

lemma validate_in_turn_length:
  "validate_in_turn rv st xs = (Inr ys, st') \<Longrightarrow> length ys = length xs"
  by (induction xs arbitrary: st ys) (auto split: prod.splits sum.splits)

lemma ListOfItems_in_turn:
  "xs \<noteq> [] \<Longrightarrow> option_type self = inherits_hooks rv \<Longrightarrow>
   ListOfItems_run_validation self st (PList xs) =
     (case validate_in_turn rv st xs of
        (Inl e, st') \<Rightarrow> (Inl e, st')
      | (Inr ys, st') \<Rightarrow> (Inr (PList ys), st'))"
proof -
  assume ne: "xs \<noteq> []" and hooks: "option_type self = inherits_hooks rv"
  define p where "p = (case key_name' self of None \<Rightarrow> [] | Some k \<Rightarrow> k)"
  define ks where "ks = fake_keys p (length xs)"
  define c0 where "c0 = \<lparr>data = dict_of_zip ks xs,
      config_file_path = (case config' self of None \<Rightarrow> None | Some c \<Rightarrow> config_file_path c)\<rparr>"
  have dist: "distinct ks" unfolding ks_def by (rule distinct_fake_keys)
  have len: "length ks = length xs" unfolding ks_def by (simp add: fake_keys_def)
  have d0: "data c0 = zip ks xs" by (simp add: c0_def dict_of_zip_distinct [OF dist len])
  have lenc: "length (data c0) = length xs" using d0 len by simp
  have run: "for_config (run_item rv) c0 st =
     (case validate_in_turn rv st xs of
        (Inl e, st') \<Rightarrow> (Inl e, st')
      | (Inr ys, st') \<Rightarrow> (Inr (c0\<lparr>data := zip ks ys\<rparr>), st'))"
    unfolding for_config_def
    using for_keys_run_item [of "[]" ks xs c0 "length (data c0)" rv st] dist len d0
    by (simp split: prod.splits sum.splits)
  have unfold: "ListOfItems_run_validation self st (PList xs) =
     (case for_config (run_item rv) c0 st of
        (Inl e, st2) \<Rightarrow> (Inl e, st2)
      | (Inr c2, st2) \<Rightarrow>
          (case getitems c2 ks of Inl e \<Rightarrow> (Inl e, st2) | Inr vs \<Rightarrow> (Inr (PList vs), st2)))"
    using ne hooks
    by (simp add: ListOfItems_run_validation_def inherits_hooks_def for_config_inherited
        Let_def c0_def ks_def p_def split: prod.splits sum.splits)
  show ?thesis
  proof (cases "validate_in_turn rv st xs")
    case (Pair r st')
    show ?thesis
    proof (cases r)
      case (Inl e)
      with Pair show ?thesis unfolding unfold run by simp
    next
      case (Inr ys)
      have ly: "length ks = length ys"
        using validate_in_turn_length [of rv st xs ys st'] Pair Inr len by simp
      have "getitems (c0\<lparr>data := zip ks ys\<rparr>) ks = Inr ys"
        using getitems_zip [of "[]" ks ys "c0\<lparr>data := zip ks ys\<rparr>"] dist ly by simp
      with Pair Inr show ?thesis unfolding unfold run by simp
    qed
  qed
qed


lemma validate_in_turn_append:
  "validate_in_turn rv st (pre @ post) =
     (case validate_in_turn rv st pre of
        (Inl e, st1) \<Rightarrow> (Inl e, st1)
      | (Inr ys, st1) \<Rightarrow>
          (case validate_in_turn rv st1 post of
             (Inl e, st2) \<Rightarrow> (Inl e, st2)
           | (Inr zs, st2) \<Rightarrow> (Inr (ys @ zs), st2)))"
  by (induction pre arbitrary: st) (auto split: prod.splits sum.splits)

lemma getitems_length: "getitems c ks = Inr vs \<Longrightarrow> length vs = length ks"
  by (induction ks arbitrary: vs) (auto split: sum.splits)

lemmas Type_int_eval =
  ListOfItems_in_turn [where rv = "logged (stateless (Type_run_validation Type_int))"]
  ListOfItems_Type_int_def calls_of_def logged_def stateless_def Type_run_validation_def
  Type_int_def isinstance_def isinstance1_def

text \<open>
  The same for every item option whose hooks leave the synthetic config as they find
  it: the items are validated in turn, in the state the \<open>pre_validation\<close> calls leave,
  and the \<open>post_validation\<close> calls see the normalized values.
\<close>

lemma for_keys_leaves:
  "leaves_config h \<Longrightarrow> length (data c) = n \<Longrightarrow>
   for_keys h n ks c st = (Inr c, hook_states h c ks st)"
proof (induction ks arbitrary: st)
  case Nil
  then show ?case by (simp add: hook_states_def)
next
  case (Cons k ks)
  from Cons.prems(1) have "fst (h st c k) = Inr c" by (simp add: leaves_config_def)
  then obtain s' where h: "h st c k = (Inr c, s')" by (cases "h st c k") auto
  have "for_keys h n (k # ks) c st = for_keys h n ks c s'"
    using Cons.prems(2) h by simp
  then show ?case using Cons.IH [OF Cons.prems, of s'] h by (simp add: hook_states_def)
qed

lemma for_config_leaves:
  "leaves_config h \<Longrightarrow> for_config h c st = (Inr c, hook_states h c (map fst (data c)) st)"
  by (simp add: for_config_def for_keys_leaves)

lemma distinct_fake_keys_of: "distinct (fake_keys_of self n)"
  by (simp add: fake_keys_of_def distinct_fake_keys)

lemma length_fake_keys_of: "length (fake_keys_of self n) = n"
  by (simp add: fake_keys_of_def fake_keys_def)

lemma ListOfItems_lifecycle:
  assumes pre: "leaves_config (pre_validation (option_type self))"
    and post: "leaves_config (post_validation (option_type self))"
  shows "ListOfItems_run_validation self st (PList xs) =
     (case validate_in_turn (run_validation (option_type self))
             (hook_states (pre_validation (option_type self)) (fake_config_of self xs)
                (fake_keys_of self (length xs)) st) xs of
        (Inl e, st2) \<Rightarrow> (Inl e, st2)
      | (Inr ys, st2) \<Rightarrow>
          (Inr (PList ys),
           hook_states (post_validation (option_type self))
             ((fake_config_of self xs)\<lparr>data := zip (fake_keys_of self (length xs)) ys\<rparr>)
             (fake_keys_of self (length xs)) st2))"
proof (cases "xs = []")
  case True
  then show ?thesis
    by (simp add: ListOfItems_run_validation_def fake_keys_of_def fake_keys_def hook_states_def)
next
  case False
  define p where "p = (case key_name' self of None \<Rightarrow> [] | Some k \<Rightarrow> k)"
  define ks where "ks = fake_keys p (length xs)"
  define c0 where "c0 = \<lparr>data = dict_of_zip ks xs,
      config_file_path = (case config' self of None \<Rightarrow> None | Some c \<Rightarrow> config_file_path c)\<rparr>"
  let ?pre = "pre_validation (option_type self)"
  let ?post = "post_validation (option_type self)"
  let ?rv = "run_validation (option_type self)"
  let ?st1 = "hook_states ?pre c0 ks st"
  have dist: "distinct ks" unfolding ks_def by (rule distinct_fake_keys)
  have len: "length ks = length xs" unfolding ks_def by (simp add: fake_keys_def)
  have d0: "data c0 = zip ks xs" by (simp add: c0_def dict_of_zip_distinct [OF dist len])
  have keys0: "map fst (data c0) = ks" using len by (simp add: d0)
  have k_eq: "fake_keys_of self (length xs) = ks" by (simp add: fake_keys_of_def ks_def p_def)
  have c_eq: "fake_config_of self xs = c0"
    by (simp add: fake_config_of_def k_eq c0_def dict_of_zip_distinct [OF dist len])
  have pr: "for_config ?pre c0 st = (Inr c0, ?st1)"
    by (simp only: for_config_leaves [OF pre] keys0)
  have run: "for_config (run_item ?rv) c0 ?st1 =
     (case validate_in_turn ?rv ?st1 xs of
        (Inl e, st') \<Rightarrow> (Inl e, st')
      | (Inr ys, st') \<Rightarrow> (Inr (c0\<lparr>data := zip ks ys\<rparr>), st'))"
    unfolding for_config_def keys0
    using for_keys_run_item [of "[]" ks xs c0 "length (data c0)" ?rv ?st1] dist len d0
    by (simp split: prod.splits sum.splits)
  have unfold: "ListOfItems_run_validation self st (PList xs) =
     (case for_config ?pre c0 st of
        (Inl e, st1) \<Rightarrow> (Inl e, st1)
      | (Inr c1, st1) \<Rightarrow>
     (case for_config (run_item ?rv) c1 st1 of
        (Inl e, st2) \<Rightarrow> (Inl e, st2)
      | (Inr c2, st2) \<Rightarrow>
          (case for_config ?post c2 st2 of
             (Inl e, st3) \<Rightarrow> (Inl e, st3)
           | (Inr c3, st3) \<Rightarrow>
               (case getitems c3 ks of
                  Inl e \<Rightarrow> (Inl e, st3)
                | Inr vs \<Rightarrow> (Inr (PList vs), st3)))))"
    using False unfolding c0_def ks_def p_def
    by (simp add: ListOfItems_run_validation_def Let_def)
  show ?thesis
  proof (cases "validate_in_turn ?rv ?st1 xs")
    case (Pair r st2)
    show ?thesis
    proof (cases r)
      case (Inl e)
      with Pair show ?thesis unfolding unfold pr k_eq c_eq by (simp add: run)
    next
      case (Inr ys)
      let ?c2 = "c0\<lparr>data := zip ks ys\<rparr>"
      have ly: "length ks = length ys"
        using validate_in_turn_length [of ?rv ?st1 xs ys st2] Pair Inr len by simp
      have keys2: "map fst (data ?c2) = ks" using ly by simp
      have po: "for_config ?post ?c2 st2 = (Inr ?c2, hook_states ?post ?c2 ks st2)"
        by (simp only: for_config_leaves [OF post] keys2)
      have g: "getitems ?c2 ks = Inr ys"
        using getitems_zip [of "[]" ks ys ?c2] dist ly by simp
      show ?thesis unfolding unfold pr k_eq c_eq using Pair Inr po g by (simp add: run)
    qed
  qed
qed

lemma leaves_config_inherited: "leaves_config BaseConfigOption_hook"
  by (simp add: leaves_config_def BaseConfigOption_hook_def)




lemma str_nat_0: "str_nat 0 = ''0''"
  by (simp add: str_nat.simps digit_def)

lemma paths_eval:
  "ListOfItems_run_validation ListOfItems_paths plain_path (PList [PStr ''c'']) =
     (Inr (PList [PStr ''/w/c'']), plain_path\<lparr>config_dir := Some ''/w''\<rparr>)"
proof -
  have pre: "leaves_config (pre_validation (option_type ListOfItems_paths))"
    by (simp add: ListOfItems_paths_def FilesystemObject_methods_def leaves_config_def)
  have post: "leaves_config (post_validation (option_type ListOfItems_paths))"
    by (simp add: ListOfItems_paths_def FilesystemObject_methods_def leaves_config_inherited)
  have d: "dirname ''/w/mkdocs.yml'' = ''/w''"
    by (simp add: dirname_def sep_def rstrip_sep_def)
  have n: "normpath ''/w/c'' = ''/w/c''"
    by (simp add: normpath_def initial_slashes_def sep_def normpath_step_def)
  show ?thesis
    unfolding ListOfItems_lifecycle [OF pre post]
    by (simp add: ListOfItems_paths_def FilesystemObject_methods_def fake_keys_of_def
        fake_keys_def fake_config_of_def hook_states_def str_nat_0
        FilesystemObject_pre_validation_def plain_path_def FilesystemObject_init_def
        FilesystemObject_run_validation_def Type_run_validation_def isinstance_def
        isinstance1_def d isabs_def join_def abspath_def n sep_def BaseConfigOption_hook_def)
qed

section \<open>Which values reach run\_validation\<close>




section \<open>A failing item of a list\<close>

text \<open>
  C3, as the claim states it, fails: for \<^verbatim>\<open>ListOfItems(Type(int))\<close> on
  \<^verbatim>\<open>[1, "a", 3]\<close> the exception of the second item leaves the loop, so the third item
  is never passed to \<open>run_validation\<close>, and the outcome is the exception alone: no item
  is returned normalized.
\<close>

theorem ListOfItems_1_a_3_counterexample:
  "isl (fst (ListOfItems_run_validation ListOfItems_Type_int ([], ())
        (PList [PInt 1, PStr ''a'', PInt 3])))
   \<and> PInt 3 \<notin> set (calls_of (ListOfItems_run_validation ListOfItems_Type_int ([], ())
        (PList [PInt 1, PStr ''a'', PInt 3])))"
  by (simp add: Type_int_eval)

text \<open>
  C3, amended: for an item option with the inherited hooks, when the items before some
  item validate and \<open>run_validation\<close> raises on that item, \<open>ListOfItems.run_validation\<close>
  raises that exception, in the state that call left; the items after it are not
  validated and no list is returned. For \<^verbatim>\<open>ListOfItems(Type(int))\<close> on
  \<^verbatim>\<open>[1, "a", 3]\<close> this is the ValidationError of \<open>Type\<close> for \<^verbatim>\<open>"a"\<close>, which names
  the expected and the received type and no position, after the calls on 1 and on
  \<^verbatim>\<open>"a"\<close>.
\<close>

theorem first_failing_item:
  "option_type self = inherits_hooks rv \<Longrightarrow>
   validate_in_turn rv st pre = (Inr ys, st1) \<Longrightarrow> rv st1 x = (Inl e, st2) \<Longrightarrow>
   ListOfItems_run_validation self st (PList (pre @ x # post)) = (Inl e, st2)"
  by (simp add: ListOfItems_in_turn validate_in_turn_append)

theorem first_failing_item_witness:
  "option_type ListOfItems_Type_int =
     inherits_hooks (logged (stateless (Type_run_validation Type_int)))
   \<and> validate_in_turn (logged (stateless (Type_run_validation Type_int))) ([], ()) [PInt 1] =
       (Inr [PInt 1], ([PInt 1], ()))
   \<and> logged (stateless (Type_run_validation Type_int)) ([PInt 1], ()) (PStr ''a'') =
       (Inl (ValidationError
          [Lit ''Expected type: '', StrClss [T_int], Lit '' but received: '', StrCls T_str]),
        ([PInt 1, PStr ''a''], ()))
   \<and> ListOfItems_run_validation ListOfItems_Type_int ([], ())
        (PList ([PInt 1] @ PStr ''a'' # [PInt 3])) =
       (Inl (ValidationError
          [Lit ''Expected type: '', StrClss [T_int], Lit '' but received: '', StrCls T_str]),
        ([PInt 1, PStr ''a''], ()))"
proof -
  have h: "option_type ListOfItems_Type_int =
      inherits_hooks (logged (stateless (Type_run_validation Type_int)))"
    by (simp add: ListOfItems_Type_int_def)
  have p: "validate_in_turn (logged (stateless (Type_run_validation Type_int))) ([], ()) [PInt 1] =
      (Inr [PInt 1], ([PInt 1], ()))"
    by (simp add: logged_def stateless_def Type_run_validation_def Type_int_def isinstance_def
        isinstance1_def)
  have f: "logged (stateless (Type_run_validation Type_int)) ([PInt 1], ()) (PStr ''a'') =
      (Inl (ValidationError
         [Lit ''Expected type: '', StrClss [T_int], Lit '' but received: '', StrCls T_str]),
       ([PInt 1, PStr ''a''], ()))"
    by (simp add: logged_def stateless_def Type_run_validation_def Type_int_def isinstance_def
        isinstance1_def)
  from h p f first_failing_item [OF h p f, of "[PInt 3]"] show ?thesis by blast
qed

section \<open>ListOfItems.run\_validation\<close>

text \<open>
  C5, as the claim states it, fails at the raw value None, which is not a list: with a
  default and without \<open>required\<close> the default is validated in its place (successfully,
  for \<^verbatim>\<open>ListOfItems(Type(int), default=[])\<close>), and otherwise the error is "Required
  configuration not provided.", which names no type.
\<close>

theorem ListOfItems_None_counterexample:
  "ListOfItems_run_validation ListOfItems_Type_int_default ([], ()) PNone =
     (Inr (PList []), ([], ()))
   \<and> ListOfItems_run_validation ListOfItems_Type_int ([], ()) PNone =
     (Inl (ValidationError [Lit ''Required configuration not provided.'']), ([], ()))"
  by (simp add: ListOfItems_run_validation_def ListOfItems_Type_int_default_def
      ListOfItems_Type_int_def)

text \<open>
  C5, amended: for every \<open>ListOfItems\<close> option: an empty raw list is returned at once,
  with no hook or \<open>run_validation\<close> of the item option called (the state is untouched);
  a raw value that is neither None nor a list is a ValidationError naming its type; a
  successful validation of a raw list returns a list of the same length, whatever the
  item option; when the hooks of the item option leave the synthetic config as they
  find it, the outcome is that of validating the items in turn with the item option's
  \<open>run_validation\<close>, in the state its \<open>pre_validation\<close> calls leave: the exception of
  the first item that fails, or the list of the values \<open>run_validation\<close> returned, in
  order; the raw value None fails with "Required configuration not provided." when the
  option is required or has no default, and is otherwise replaced by the default.
\<close>

theorem ListOfItems_contract:
  "ListOfItems_run_validation self st (PList []) = (Inr (PList []), st)
   \<and> (v \<noteq> PNone \<and> type_of v \<noteq> T_list \<longrightarrow>
        ListOfItems_run_validation self st v =
          (Inl (ValidationError
             [Lit ''Expected a list of items, but a '', StrCls (type_of v),
              Lit '' was given.'']), st))
   \<and> (ListOfItems_run_validation self st (PList xs) = (Inr r, st') \<longrightarrow>
        (\<exists>ys. r = PList ys \<and> length ys = length xs))
   \<and> (leaves_config (pre_validation (option_type self))
        \<and> leaves_config (post_validation (option_type self)) \<longrightarrow>
        ListOfItems_run_validation self st (PList xs) =
          (case validate_in_turn (run_validation (option_type self))
                  (hook_states (pre_validation (option_type self)) (fake_config_of self xs)
                     (fake_keys_of self (length xs)) st) xs of
             (Inl e, st2) \<Rightarrow> (Inl e, st2)
           | (Inr ys, st2) \<Rightarrow>
               (Inr (PList ys),
                hook_states (post_validation (option_type self))
                  ((fake_config_of self xs)\<lparr>data := zip (fake_keys_of self (length xs)) ys\<rparr>)
                  (fake_keys_of self (length xs)) st2)))
   \<and> (required' self = Some True \<or> default self = PNone \<longrightarrow>
        ListOfItems_run_validation self st PNone =
          (Inl (ValidationError [Lit ''Required configuration not provided.'']), st))
   \<and> (required' self \<noteq> Some True \<and> default self \<noteq> PNone \<longrightarrow>
        ListOfItems_run_validation self st PNone =
          ListOfItems_run_validation self st (default self))"
proof (intro conjI impI)
  show "ListOfItems_run_validation self st (PList []) = (Inr (PList []), st)"
    by (simp add: ListOfItems_run_validation_def)
next
  assume "v \<noteq> PNone \<and> type_of v \<noteq> T_list"
  then show "ListOfItems_run_validation self st v =
      (Inl (ValidationError
         [Lit ''Expected a list of items, but a '', StrCls (type_of v),
          Lit '' was given.'']), st)"
    by (cases v) (simp_all add: ListOfItems_run_validation_def)
next
  assume a: "ListOfItems_run_validation self st (PList xs) = (Inr r, st')"
  show "\<exists>ys. r = PList ys \<and> length ys = length xs"
  proof (cases "xs = []")
    case True
    with a show ?thesis by (simp add: ListOfItems_run_validation_def)
  next
    case False
    with a obtain c vs where
      "getitems c (fake_keys (case key_name' self of None \<Rightarrow> [] | Some k \<Rightarrow> k) (length xs)) =
         Inr vs"
      "r = PList vs"
      by (auto simp: ListOfItems_run_validation_def Let_def split: prod.splits sum.splits)
    then show ?thesis using getitems_length by (fastforce simp: fake_keys_def)
  qed
next
  assume a: "leaves_config (pre_validation (option_type self))
      \<and> leaves_config (post_validation (option_type self))"
  from a have p1: "leaves_config (pre_validation (option_type self))" ..
  from a have p2: "leaves_config (post_validation (option_type self))" ..
  show "ListOfItems_run_validation self st (PList xs) =
      (case validate_in_turn (run_validation (option_type self))
              (hook_states (pre_validation (option_type self)) (fake_config_of self xs)
                 (fake_keys_of self (length xs)) st) xs of
         (Inl e, st2) \<Rightarrow> (Inl e, st2)
       | (Inr ys, st2) \<Rightarrow>
           (Inr (PList ys),
            hook_states (post_validation (option_type self))
              ((fake_config_of self xs)\<lparr>data := zip (fake_keys_of self (length xs)) ys\<rparr>)
              (fake_keys_of self (length xs)) st2))"
    by (rule ListOfItems_lifecycle [OF p1 p2])
next
  assume "required' self = Some True \<or> default self = PNone"
  then show "ListOfItems_run_validation self st PNone =
      (Inl (ValidationError [Lit ''Required configuration not provided.'']), st)"
    by (auto simp: ListOfItems_run_validation_def)
next
  assume "required' self \<noteq> Some True \<and> default self \<noteq> PNone"
  then show "ListOfItems_run_validation self st PNone =
      ListOfItems_run_validation self st (default self)"
    by (auto simp: ListOfItems_run_validation_def)
qed

theorem ListOfItems_contract_witness:
  "ListOfItems_run_validation ListOfItems_paths plain_path (PList []) =
     (Inr (PList []), plain_path)
   \<and> ListOfItems_run_validation ListOfItems_paths plain_path (PStr ''a'') =
       (Inl (ValidationError
          [Lit ''Expected a list of items, but a '', StrCls T_str, Lit '' was given.'']),
        plain_path)
   \<and> leaves_config (pre_validation (option_type ListOfItems_paths))
   \<and> leaves_config (post_validation (option_type ListOfItems_paths))
   \<and> ListOfItems_run_validation ListOfItems_paths plain_path (PList [PStr ''c'']) =
       (Inr (PList [PStr ''/w/c'']), plain_path\<lparr>config_dir := Some ''/w''\<rparr>)
   \<and> length [PStr ''/w/c''] = length [PStr ''c'']
   \<and> ListOfItems_run_validation ListOfItems_Type_int ([], ()) PNone =
       (Inl (ValidationError [Lit ''Required configuration not provided.'']), ([], ()))
   \<and> ListOfItems_run_validation ListOfItems_Type_int_default ([], ()) PNone =
       ListOfItems_run_validation ListOfItems_Type_int_default ([], ()) (PList [])"
proof -
  have pre: "leaves_config (pre_validation (option_type ListOfItems_paths))"
    by (simp add: ListOfItems_paths_def FilesystemObject_methods_def leaves_config_def)
  have post: "leaves_config (post_validation (option_type ListOfItems_paths))"
    by (simp add: ListOfItems_paths_def FilesystemObject_methods_def leaves_config_inherited)
  have d: "default ListOfItems_Type_int = PNone" "default ListOfItems_Type_int_default = PList []"
    "required' ListOfItems_Type_int_default = None"
    by (simp_all add: ListOfItems_Type_int_def ListOfItems_Type_int_default_def)
  note t1 = ListOfItems_contract [of ListOfItems_paths plain_path "PStr ''a''" "[PStr ''c'']"
      "PList [PStr ''/w/c'']" "plain_path\<lparr>config_dir := Some ''/w''\<rparr>"]
  note t2 = ListOfItems_contract [of ListOfItems_Type_int "([], ())" "PStr ''a''"
      "[]" "PList []" "([], ())"]
  note t3 = ListOfItems_contract [of ListOfItems_Type_int_default "([], ())" "PStr ''a''"
      "[]" "PList []" "([], ())"]
  show ?thesis using pre post d paths_eval t1 t2 t3 by simp
qed

section \<open>Choice\<close>







section \<open>Nav at the top level\<close>

text \<open>
  C10: \<open>Nav.run_validation\<close> at the top level (\<open>top=True\<close>, which is how
  \<open>OptionallyRequired.validate\<close> calls it) returns None for the empty list, and returns
  a list that is not empty as it is when every item of it passes
  \<open>_validate_nav_item\<close>; \<open>ws'\<close> is the warning buffer those checks leave.
\<close>

theorem Nav_top_level:
  "Nav_run_validation True ws (PList []) = (Inr PNone, ws)
   \<and> validate (Nav_run_validation True) self ws (PList []) = (Inr PNone, ws)
   \<and> (xs \<noteq> [] \<and> validate_nav_items ws xs = (Inr (), ws') \<longrightarrow>
        Nav_run_validation True ws (PList xs) = (Inr (PList xs), ws')
        \<and> validate (Nav_run_validation True) self ws (PList xs) = (Inr (PList xs), ws'))"
  by (simp add: validate_def)

theorem Nav_top_level_witness:
  "validate (Nav_run_validation True) Nav [] (PList []) = (Inr PNone, [])
   \<and> nav_two \<noteq> []
   \<and> validate_nav_items [] nav_two = (Inr (), [])
   \<and> validate (Nav_run_validation True) Nav [] (PList nav_two) = (Inr (PList nav_two), [])"
proof -
  have n: "nav_two \<noteq> []" by (simp add: nav_two_def)
  have v: "validate_nav_items [] nav_two = (Inr (), [])" by (simp add: nav_two_def)
  from n v Nav_top_level [of "[]" Nav nav_two "[]"] show ?thesis by simp
qed

section \<open>SiteDir: docs\_dir and site\_dir must not contain each other\<close>

lemma startswith_Nil: "startswith [] p \<longleftrightarrow> p = []"
  by (cases p) auto

lemma startswith_antisym: "startswith s p \<Longrightarrow> startswith p s \<Longrightarrow> s = p"
  by (induction s p rule: startswith.induct) (auto simp: startswith_Nil)

lemma within_antisym:
  "rstrip_sep a = a \<Longrightarrow> rstrip_sep b = b \<Longrightarrow> within a b \<Longrightarrow> within b a \<Longrightarrow> a = b"
  using startswith_antisym [of "a @ [sep]" "b @ [sep]"] by (simp add: within_def)

text \<open>
  C8: \<open>SiteDir.post_validation\<close> reads \<open>docs_dir\<close> and \<open>site_dir\<close> from the config and
  compares \<open>docs_dir + sep\<close> with \<open>site_dir.rstrip(sep) + sep\<close> as a prefix, then the
  other way round. When \<open>docs_dir\<close> is within \<open>site_dir\<close> it raises the ValidationError
  of that direction; when \<open>site_dir\<close> is within \<open>docs_dir\<close> (and the first test has not
  fired) it raises the other one; otherwise it returns. The two messages differ and
  each names both paths. For two different paths without trailing separators, as
  \<open>abspath\<close> returns them, at most one direction holds; when both tests hold (the same
  directory twice) the first message is the one raised.
\<close>

theorem SiteDir_containment:
  "config_getitem c ''docs_dir'' = Inr (PStr docs) \<Longrightarrow>
   config_getitem c ''site_dir'' = Inr (PStr site) \<Longrightarrow>
   (within docs site \<longrightarrow>
      SiteDir_post_validation st c key_name =
        (Inl (ValidationError (docs_in_site_message site docs)), st))
   \<and> (within site docs \<and> \<not> within docs site \<longrightarrow>
      SiteDir_post_validation st c key_name =
        (Inl (ValidationError (site_in_docs_message site docs)), st))
   \<and> (\<not> within docs site \<and> \<not> within site docs \<longrightarrow>
      SiteDir_post_validation st c key_name = (Inr c, st))
   \<and> (rstrip_sep docs = docs \<and> rstrip_sep site = site \<and> docs \<noteq> site \<longrightarrow>
      \<not> (within docs site \<and> within site docs))
   \<and> docs_in_site_message site docs \<noteq> site_in_docs_message site docs
   \<and> Str (PStr site) \<in> set (docs_in_site_message site docs)
   \<and> Str (PStr docs) \<in> set (docs_in_site_message site docs)
   \<and> Str (PStr site) \<in> set (site_in_docs_message site docs)
   \<and> Str (PStr docs) \<in> set (site_in_docs_message site docs)"
  using within_antisym [of docs site]
  by (auto simp: SiteDir_post_validation_def docs_in_site_message_def site_in_docs_message_def
      both_dirs_def)

theorem SiteDir_containment_witness:
  "config_getitem site_in_docs ''docs_dir'' = Inr (PStr ''/x'')
   \<and> config_getitem site_in_docs ''site_dir'' = Inr (PStr ''/x/y'')
   \<and> within ''/x/y'' ''/x'' \<and> \<not> within ''/x'' ''/x/y''
   \<and> SiteDir_post_validation () site_in_docs ''site_dir'' =
       (Inl (ValidationError (site_in_docs_message ''/x/y'' ''/x'')), ())
   \<and> config_getitem docs_in_site ''docs_dir'' = Inr (PStr ''/x/y'')
   \<and> config_getitem docs_in_site ''site_dir'' = Inr (PStr ''/x'')
   \<and> SiteDir_post_validation () docs_in_site ''site_dir'' =
       (Inl (ValidationError (docs_in_site_message ''/x'' ''/x/y'')), ())"
proof -
  have g: "config_getitem site_in_docs ''docs_dir'' = Inr (PStr ''/x'')"
    "config_getitem site_in_docs ''site_dir'' = Inr (PStr ''/x/y'')"
    "config_getitem docs_in_site ''docs_dir'' = Inr (PStr ''/x/y'')"
    "config_getitem docs_in_site ''site_dir'' = Inr (PStr ''/x'')"
    by (simp_all add: config_getitem_def site_in_docs_def docs_in_site_def)
  have w: "within ''/x/y'' ''/x''" "\<not> within ''/x'' ''/x/y''"
    by (simp_all add: within_def rstrip_sep_def sep_def)
  from g w SiteDir_containment [OF g(1) g(2), of "()" "''site_dir''"]
    SiteDir_containment [OF g(3) g(4), of "()" "''site_dir''"]
  show ?thesis by simp
qed

section \<open>Filesystem paths\<close>

text \<open>\<open>normpath\<close> of an absolute path: one or two separators, then the components that
  are kept, joined; normalizing that again changes nothing.\<close>

lemma split_sep_nonempty: "split_sep s \<noteq> []"
  by (induction s) (auto split: list.splits)

lemma split_sep_no_sep: "c \<in> set (split_sep s) \<Longrightarrow> sep \<notin> set c"
proof (induction s arbitrary: c)
  case Nil
  then show ?case by simp
next
  case (Cons a s)
  then show ?case
    by (cases "split_sep s") (auto split: if_splits)
qed

lemma split_sep_plain: "sep \<notin> set x \<Longrightarrow> split_sep x = [x]"
  by (induction x) auto

lemma split_sep_append: "sep \<notin> set x \<Longrightarrow> split_sep (x @ sep # r) = x # split_sep r"
  by (induction x) auto

lemma split_sep_join:
  "comps \<noteq> [] \<Longrightarrow> \<forall>c\<in>set comps. sep \<notin> set c \<Longrightarrow> split_sep (join_sep comps) = comps"
proof (induction comps rule: join_sep.induct)
  case 1
  then show ?case by simp
next
  case (2 x)
  then show ?case by (simp add: split_sep_plain)
next
  case (3 x y ys)
  then show ?case by (simp add: split_sep_append)
qed

lemma step_clean:
  "0 < k \<Longrightarrow> \<forall>c\<in>set acc. clean c \<Longrightarrow> sep \<notin> set x \<Longrightarrow>
   \<forall>c\<in>set (normpath_step k acc x). clean c"
  by (auto simp: normpath_step_def clean_def dest: in_set_butlastD)

lemma fold_clean:
  "0 < k \<Longrightarrow> \<forall>c\<in>set acc. clean c \<Longrightarrow> \<forall>x\<in>set xs. sep \<notin> set x \<Longrightarrow>
   \<forall>c\<in>set (foldl (normpath_step k) acc xs). clean c"
proof (induction xs arbitrary: acc)
  case Nil
  then show ?case by simp
next
  case (Cons x xs)
  have "\<forall>c\<in>set (normpath_step k acc x). clean c"
    using step_clean [of k acc x] Cons.prems by simp
  then show ?case using Cons.IH [of "normpath_step k acc x"] Cons.prems by simp
qed

lemma fold_on_clean:
  "\<forall>c\<in>set xs. clean c \<Longrightarrow> foldl (normpath_step k) acc xs = acc @ xs"
  by (induction xs arbitrary: acc) (auto simp: normpath_step_def clean_def)

lemma fold_skip_empty: "foldl (normpath_step k) acc (replicate n [] @ xs) = foldl (normpath_step k) acc xs"
  by (induction n) (auto simp: normpath_step_def)

lemma fold_empties: "foldl (normpath_step k) acc (replicate n []) = acc"
  by (induction n) (auto simp: normpath_step_def)

lemma split_sep_slashes: "split_sep (replicate n sep @ s) = replicate n [] @ split_sep s"
  by (induction n) auto

lemma join_sep_hd:
  "comps \<noteq> [] \<Longrightarrow> \<forall>c\<in>set comps. clean c \<Longrightarrow> join_sep comps \<noteq> [] \<and> hd (join_sep comps) \<noteq> sep"
  by (induction comps rule: join_sep.induct) (auto simp: clean_def hd_append dest: hd_in_set)

lemma initial_slashes_abs: "isabs p \<Longrightarrow> initial_slashes p = 1 \<or> initial_slashes p = 2"
  by (simp add: initial_slashes_def isabs_def)

lemma startswith_Cons: "startswith (c # s) (d # p) \<longleftrightarrow> c = d \<and> startswith s p"
  by simp

lemma initial_slashes_normal:
  "k = 1 \<or> k = 2 \<Longrightarrow> \<forall>c\<in>set comps. clean c \<Longrightarrow>
   initial_slashes (replicate k sep @ join_sep comps) = k"
proof (cases "comps = []")
  case True
  assume "k = 1 \<or> k = 2"
  with True show ?thesis by (auto simp: initial_slashes_def numeral_2_eq_2)
next
  case False
  assume k: "k = 1 \<or> k = 2" and c: "\<forall>c\<in>set comps. clean c"
  from join_sep_hd [OF False c] obtain a r where j: "join_sep comps = a # r" "a \<noteq> sep"
    by (cases "join_sep comps") auto
  with k show ?thesis by (auto simp: initial_slashes_def numeral_2_eq_2)
qed

lemma normpath_abs_form:
  assumes "isabs p"
  shows "\<exists>k comps. (k = 1 \<or> k = 2) \<and> (\<forall>c\<in>set comps. clean c)
           \<and> normpath p = replicate k sep @ join_sep comps"
proof -
  let ?k = "initial_slashes p"
  let ?comps = "foldl (normpath_step ?k) [] (split_sep p)"
  from assms have k: "?k = 1 \<or> ?k = 2" by (rule initial_slashes_abs)
  then have pos: "0 < ?k" by auto
  have c: "\<forall>c\<in>set ?comps. clean c"
    using fold_clean [OF pos, of "[]" "split_sep p"] split_sep_no_sep by auto
  from assms have "p \<noteq> []" by (auto simp: isabs_def)
  moreover have "replicate ?k sep @ join_sep ?comps \<noteq> []" using pos by auto
  ultimately have "normpath p = replicate ?k sep @ join_sep ?comps"
    unfolding normpath_def Let_def by (simp only: if_False)
  with k c show ?thesis by blast
qed

lemma normpath_of_form:
  assumes k: "k = 1 \<or> k = 2" and c: "\<forall>c\<in>set comps. clean c"
  shows "normpath (replicate k sep @ join_sep comps) = replicate k sep @ join_sep comps"
proof -
  let ?q = "replicate k sep @ join_sep comps"
  have ne: "?q \<noteq> []" using k by auto
  have i: "initial_slashes ?q = k" using initial_slashes_normal [OF k c] .
  have s: "foldl (normpath_step k) [] (split_sep ?q) = comps"
  proof (cases "comps = []")
    case True
    have "split_sep (replicate k sep) = replicate k [] @ [[]]"
      using split_sep_slashes [of k "[]"] by simp
    moreover have "foldl (normpath_step k) [] (replicate k [] @ [[]]) = []"
      unfolding fold_skip_empty by (simp add: normpath_step_def)
    ultimately show ?thesis using True by simp
  next
    case False
    have "\<forall>c\<in>set comps. sep \<notin> set c" using c by (simp add: clean_def)
    from split_sep_join [OF False this] show ?thesis
      by (simp add: split_sep_slashes fold_empties fold_on_clean [OF c])
  qed
  show ?thesis using ne by (simp add: normpath_def Let_def i s)
qed

lemma normpath_idem: "isabs p \<Longrightarrow> normpath (normpath p) = normpath p"
proof -
  assume "isabs p"
  from normpath_abs_form [OF this] obtain k comps where
    f: "k = 1 \<or> k = 2" "\<forall>c\<in>set comps. clean c" "normpath p = replicate k sep @ join_sep comps"
    by blast
  show ?thesis unfolding f(3) using f(1) f(2) by (rule normpath_of_form)
qed

lemma normpath_isabs: "isabs p \<Longrightarrow> isabs (normpath p)"
  using normpath_abs_form [of p] by (auto simp: isabs_def numeral_2_eq_2)

lemma join_isabs: "isabs a \<Longrightarrow> isabs (join a b)"
  by (cases a) (auto simp: join_def isabs_def)

lemma abspath_of_abs: "isabs p \<Longrightarrow> abspath cwd p = normpath p"
  by (simp add: abspath_def)

text \<open>The directory of an absolute path is absolute.\<close>

lemma rev_drop_take: "xs = rev (dropWhile P (rev xs)) @ rev (takeWhile P (rev xs))"
  by (metis rev_append rev_rev_ident takeWhile_dropWhile_id)

lemma rstrip_prefix: "s = rstrip_sep s @ rev (takeWhile (\<lambda>c. c = sep) (rev s))"
  unfolding rstrip_sep_def by (rule rev_drop_take)

lemma rstrip_sep_empty: "rstrip_sep s = [] \<Longrightarrow> s = replicate (length s) sep"
proof -
  assume e: "rstrip_sep s = []"
  have "\<forall>c\<in>set (takeWhile (\<lambda>c. c = sep) (rev s)). c = sep" by (auto dest: set_takeWhileD)
  moreover have "s = rev (takeWhile (\<lambda>c. c = sep) (rev s))" using rstrip_prefix [of s] e by simp
  ultimately have "\<forall>c\<in>set s. c = sep" by (metis set_rev)
  then show ?thesis by (simp add: replicate_length_same)
qed

lemma rstrip_sep_isabs: "isabs s \<Longrightarrow> s \<noteq> replicate (length s) sep \<Longrightarrow> isabs (rstrip_sep s)"
proof -
  assume a: "isabs s" and n: "s \<noteq> replicate (length s) sep"
  from n have ne: "rstrip_sep s \<noteq> []" using rstrip_sep_empty by blast
  then obtain x r where xr: "rstrip_sep s = x # r" by (cases "rstrip_sep s") auto
  with rstrip_prefix [of s] have "hd s = x" by (metis append_Cons list.sel(1))
  with a xr show ?thesis by (cases s) (auto simp: isabs_def)
qed

lemma head_isabs:
  "isabs p \<Longrightarrow> isabs (rev (dropWhile (\<lambda>c. c \<noteq> sep) (rev p)))"
proof -
  assume a: "isabs p"
  let ?h = "rev (dropWhile (\<lambda>c. c \<noteq> sep) (rev p))"
  have split: "p = ?h @ rev (takeWhile (\<lambda>c. c \<noteq> sep) (rev p))"
    by (rule rev_drop_take)
  from a obtain r where p: "p = sep # r" by (cases p) (auto simp: isabs_def)
  have "?h \<noteq> []"
  proof
    assume "?h = []"
    then have "\<forall>c\<in>set (rev p). c \<noteq> sep" by (simp add: dropWhile_eq_Nil_conv)
    with p show False by simp
  qed
  then obtain x t where h: "?h = x # t" by (cases ?h) auto
  with split p have "x = sep" by (metis append_Cons list.inject)
  with h show ?thesis by (simp add: isabs_def)
qed

lemma dirname_isabs: "isabs p \<Longrightarrow> isabs (dirname p)"
  using head_isabs [of p] rstrip_sep_isabs
  by (auto simp: dirname_def Let_def)

lemma isabs_nonempty: "isabs p \<Longrightarrow> p \<noteq> []"
  by (auto simp: isabs_def)

lemma Type_str_result:
  "type' self = [T_str] \<Longrightarrow> Type_run_validation self v = Inr r \<Longrightarrow> r = v \<and> (\<exists>s. v = PStr s)"
  by (cases v)
    (auto simp: Type_run_validation_def isinstance_def isinstance1_def
      split: if_splits option.splits)

lemma FilesystemObject_on_str:
  assumes "Type_run_validation self (PStr s) = Inr (PStr s)"
    and "config_dir self = Some d" "d \<noteq> []" "isabs d"
  shows "FilesystemObject_run_validation cwd self (PStr s) =
    (if exists' self \<and> \<not> existence_test self (if isabs s then s else join d s) then
       Inl (ValidationError
         [Lit (''The path '' @ squote), Str (PStr (if isabs s then s else join d s)),
          Lit (squote @ '' isn't an existing ''), Lit (name' self), Lit ''.''])
     else Inr (PStr (normpath (if isabs s then s else join d s))))"
proof (cases "isabs s")
  case True
  with assms show ?thesis
    by (simp add: FilesystemObject_run_validation_def Let_def abspath_of_abs)
next
  case False
  have "isabs (join d s)" using assms(4) by (rule join_isabs)
  with False assms show ?thesis
    by (simp add: FilesystemObject_run_validation_def Let_def abspath_of_abs)
qed


text \<open>
  C7, as the claim states it, fails on the round trip for an option that enforces
  existence: \<open>run_validation\<close> tests the joined path before normalizing it and returns
  the normalized one. With \<^verbatim>\<open>/a/b/link\<close> a symbolic link, \<^verbatim>\<open>link/../x\<close> validates to
  \<^verbatim>\<open>/a/b/x\<close>, and \<^verbatim>\<open>/a/b/x\<close> fed back fails the existence test.
\<close>

theorem FilesystemObject_round_trip_counterexample:
  "FilesystemObject_run_validation ''/cwd'' through_link (PStr ''link/../x'') =
     Inr (PStr ''/a/b/x'')
   \<and> FilesystemObject_run_validation ''/cwd'' through_link (PStr ''/a/b/x'') =
     Inl (ValidationError
       [Lit (''The path '' @ squote), Str (PStr ''/a/b/x''),
        Lit (squote @ '' isn't an existing ''), Lit ''file or directory'', Lit ''.''])"
proof -
  have d: "dirname ''/a/b/mkdocs.yml'' = ''/a/b''"
    by (simp add: dirname_def sep_def rstrip_sep_def)
  have n: "normpath ''/a/b/link/../x'' = ''/a/b/x''"
    by (simp add: normpath_def initial_slashes_def sep_def normpath_step_def)
  show ?thesis
    by (simp add: through_link_def a_b_mkdocs_def FilesystemObject_pre_validation_def
        FilesystemObject_init_def FilesystemObject_run_validation_def Type_run_validation_def
        isinstance_def isinstance1_def d isabs_def join_def abspath_def n sep_def
        only_through_link_def)
qed

text \<open>
  C7, amended: for a filesystem option (\<open>type_=str\<close>) after \<open>pre_validation\<close> on a config
  whose source location \<open>p\<close> is an absolute path, a validation that succeeds had a string
  for its raw value and returns the \<open>normpath\<close> of that string when it is absolute and
  of its \<open>join\<close> with \<open>dirname p\<close> when it is relative; the result is an absolute path
  (\<^verbatim>\<open>sub/dir\<close> relative to \<^verbatim>\<open>/a/b/mkdocs.yml\<close> gives \<^verbatim>\<open>/a/b/sub/dir\<close>). Feeding the
  result back returns it unchanged when the option has no length constraint and, if it
  enforces existence, the existence test accepts the normalized path.
\<close>

theorem FilesystemObject_round_trip:
  assumes cfp: "config_file_path c = Some p" "isabs p"
    and self: "type' self0 = [T_str]" "self = FilesystemObject_pre_validation self0 c key_name"
    and run: "FilesystemObject_run_validation cwd self v = Inr r"
  shows "\<exists>s. v = PStr s
           \<and> r = PStr (normpath (if isabs s then s else join (dirname p) s))
           \<and> isabs (normpath (if isabs s then s else join (dirname p) s))
           \<and> (length' self0 = None
                \<and> (exists' self \<longrightarrow>
                     existence_test self (normpath (if isabs s then s else join (dirname p) s)))
               \<longrightarrow> FilesystemObject_run_validation cwd self r = Inr r)"
proof -
  have pne: "p \<noteq> []" using cfp(2) by (rule isabs_nonempty)
  have d: "config_dir self = Some (dirname p)"
    using cfp(1) pne self(2) by (simp add: FilesystemObject_pre_validation_def)
  have dabs: "isabs (dirname p)" using cfp(2) by (rule dirname_isabs)
  have dne: "dirname p \<noteq> []" using dabs by (rule isabs_nonempty)
  have t: "type' self = [T_str]" "length' self = length' self0"
    using self by (simp_all add: FilesystemObject_pre_validation_def)
  obtain r0 where r0: "Type_run_validation self v = Inr r0"
    using run by (cases "Type_run_validation self v")
      (simp_all add: FilesystemObject_run_validation_def)
  from Type_str_result [OF t(1) r0] obtain s where s: "v = PStr s" "r0 = PStr s" by auto
  let ?v = "if isabs s then s else join (dirname p) s"
  have abs: "isabs ?v" using dabs by (simp add: join_isabs)
  have ts: "Type_run_validation self (PStr s) = Inr (PStr s)" using r0 s by simp
  have r: "r = PStr (normpath ?v)"
    using run unfolding s(1) FilesystemObject_on_str [OF ts d dne dabs]
    by (simp split: if_splits)
  have nabs: "isabs (normpath ?v)" using abs by (rule normpath_isabs)
  have again: "FilesystemObject_run_validation cwd self r = Inr r"
    if l: "length' self0 = None" and e: "exists' self \<longrightarrow> existence_test self (normpath ?v)"
  proof -
    have tr: "Type_run_validation self (PStr (normpath ?v)) = Inr (PStr (normpath ?v))"
      using t l by (simp add: Type_run_validation_def isinstance_def isinstance1_def)
    show ?thesis
      unfolding r FilesystemObject_on_str [OF tr d dne dabs]
      using nabs e normpath_idem [OF abs] by simp
  qed
  show ?thesis
  proof (intro exI [of _ s] conjI impI)
    show "v = PStr s" by (rule s(1))
    show "r = PStr (normpath ?v)" by (rule r)
    show "isabs (normpath ?v)" by (rule nabs)
    assume "length' self0 = None \<and> (exists' self \<longrightarrow> existence_test self (normpath ?v))"
    then show "FilesystemObject_run_validation cwd self r = Inr r" using again by simp
  qed
qed

theorem FilesystemObject_round_trip_witness:
  "config_file_path a_b_mkdocs = Some ''/a/b/mkdocs.yml''
   \<and> isabs ''/a/b/mkdocs.yml''
   \<and> type' plain_path = [T_str]
   \<and> length' plain_path = None
   \<and> \<not> exists' plain
   \<and> FilesystemObject_run_validation ''/cwd'' plain (PStr ''sub/dir'') = Inr (PStr ''/a/b/sub/dir'')
   \<and> isabs ''/a/b/sub/dir''
   \<and> FilesystemObject_run_validation ''/cwd'' plain (PStr ''/a/b/sub/dir'') =
       Inr (PStr ''/a/b/sub/dir'')"
proof -
  have c: "config_file_path a_b_mkdocs = Some ''/a/b/mkdocs.yml''" by (simp add: a_b_mkdocs_def)
  have a: "isabs ''/a/b/mkdocs.yml''" "isabs ''/a/b/sub/dir''" by (simp_all add: isabs_def sep_def)
  have t: "type' plain_path = [T_str]" "length' plain_path = None" "\<not> exists' plain"
    by (simp_all add: plain_path_def plain_def FilesystemObject_init_def
        FilesystemObject_pre_validation_def)
  have d: "dirname ''/a/b/mkdocs.yml'' = ''/a/b''"
    by (simp add: dirname_def sep_def rstrip_sep_def)
  have n: "normpath ''/a/b/sub/dir'' = ''/a/b/sub/dir''"
    by (simp add: normpath_def initial_slashes_def sep_def normpath_step_def)
  have r: "FilesystemObject_run_validation ''/cwd'' plain (PStr ''sub/dir'') =
      Inr (PStr ''/a/b/sub/dir'')"
    by (simp add: plain_def plain_path_def a_b_mkdocs_def FilesystemObject_pre_validation_def
        FilesystemObject_init_def FilesystemObject_run_validation_def Type_run_validation_def
        isinstance_def isinstance1_def d isabs_def join_def abspath_def n sep_def)
  from FilesystemObject_round_trip [OF c a(1) t(1) plain_def r] t(2) t(3)
  have "FilesystemObject_run_validation ''/cwd'' plain (PStr ''/a/b/sub/dir'') =
      Inr (PStr ''/a/b/sub/dir'')"
    by auto
  with c a t r show ?thesis by simp
qed

end
